theory Spec2Isabelle
  imports Main "HOL-Library.Word"
begin

section \<open>Go strings\<close>

text \<open>
  Go strings are byte sequences; they are modelled as \<open>string\<close>, a list of 8-bit
  characters. The functions of Go's package \<open>strings\<close> that the builder calls are
  written out here with the results the library gives.
\<close>

text \<open>
  \<open>strings.Split(s, sep)\<close> for a one-byte separator (the builder splits at \<open>"/"\<close>
  and at \<open>","\<close>): the substrings between the separators, one more than there are
  separators, so never an empty slice.
\<close>

fun Split :: "string \<Rightarrow> char \<Rightarrow> string list" where
  "Split [] sep = [[]]"
| "Split (c # cs) sep =
     (if c = sep then [] # Split cs sep
      else (case Split cs sep of [] \<Rightarrow> [[c]] | p # ps \<Rightarrow> (c # p) # ps))"

text \<open>\<open>strings.Join(parts, sep)\<close>.\<close>

fun Join :: "string list \<Rightarrow> string \<Rightarrow> string" where
  "Join [] sep = []"
| "Join [p] sep = p"
| "Join (p # q # ps) sep = p @ sep @ Join (q # ps) sep"

text \<open>\<open>strings.HasSuffix(s, suffix)\<close>.\<close>

definition HasSuffix :: "string \<Rightarrow> string \<Rightarrow> bool" where
  "HasSuffix s suf \<longleftrightarrow> length suf \<le> length s \<and> drop (length s - length suf) s = suf"

lemma Split_nonempty: "Split s sep \<noteq> []"
  by (induction s) (auto split: list.splits)

lemma Split_sepfree: "sep \<notin> set p \<Longrightarrow> Split p sep = [p]"
  by (induction p) auto

lemma Split_sepfree_app: "sep \<notin> set p \<Longrightarrow> Split (p @ sep # rest) sep = p # Split rest sep"
  by (induction p) auto

text \<open>Split is the inverse of Join on non-empty lists of separator-free segments.\<close>

lemma Split_Join:
  "parts \<noteq> [] \<Longrightarrow> \<forall>p \<in> set parts. sep \<notin> set p \<Longrightarrow> Split (Join parts [sep]) sep = parts"
proof (induction parts "[sep]" rule: Join.induct)
  case 1
  then show ?case by simp
next
  case (2 p)
  then show ?case by (simp add: Split_sepfree)
next
  case (3 p q ps)
  then show ?case by (simp add: Split_sepfree_app)
qed

section \<open>Environment merge (MergeEnv)\<close>

text \<open>An environment is a list of entries \<open>NAME=value\<close>.\<close>


text \<open>\<open>strings.Index(e, "=")\<close>: the position of the first \<open>=\<close>, \<open>None\<close> for Go's -1.\<close>

fun Index_eq :: "string \<Rightarrow> nat option" where
  "Index_eq [] = None"
| "Index_eq (c # cs) = (if c = CHR ''='' then Some 0 else map_option Suc (Index_eq cs))"

text \<open>The closure \<open>key\<close> of MergeEnv: \<open>e[:i]\<close>, or \<open>e\<close> itself when there is no \<open>=\<close>.\<close>

definition key :: "string \<Rightarrow> string" where
  "key e = (case Index_eq e of None \<Rightarrow> e | Some i \<Rightarrow> take i e)"

text \<open>First loop of MergeEnv: \<open>newVars[key(e)] = struct{}{}\<close> for every entry of newEnv.\<close>

fun collect_newVars :: "string list \<Rightarrow> (string \<rightharpoonup> unit) \<Rightarrow> (string \<rightharpoonup> unit)" where
  "collect_newVars [] newVars = newVars"
| "collect_newVars (e # es) newVars = collect_newVars es (newVars(key e \<mapsto> ()))"

text \<open>Second loop: an old entry whose key exists in newVars is skipped, any other is appended.\<close>

fun append_oldEnv :: "string list \<Rightarrow> (string \<rightharpoonup> unit) \<Rightarrow> string list \<Rightarrow> string list" where
  "append_oldEnv [] newVars result = result"
| "append_oldEnv (e # es) newVars result =
     (if newVars (key e) \<noteq> None then append_oldEnv es newVars result
      else append_oldEnv es newVars (result @ [e]))"

definition MergeEnv :: "string list \<Rightarrow> string list \<Rightarrow> string list" where
  "MergeEnv oldEnv newEnv =
     (let result = [];
          newVars = collect_newVars newEnv Map.empty;
          result = result @ newEnv
      in append_oldEnv oldEnv newVars result)"

text \<open>
  The specification's wording of a variable name: the prefix before the first \<open>=\<close>,
  or the whole entry if it contains none.
\<close>

definition var_name :: "string \<Rightarrow> string" where
  "var_name e = takeWhile (\<lambda>c. c \<noteq> CHR ''='') e"

subsection \<open>Properties of MergeEnv\<close>

lemma Index_eq_None: "Index_eq e = None \<Longrightarrow> takeWhile (\<lambda>c. c \<noteq> CHR ''='') e = e"
  by (induction e) (auto split: if_splits)

lemma Index_eq_Some: "Index_eq e = Some i \<Longrightarrow> take i e = takeWhile (\<lambda>c. c \<noteq> CHR ''='') e"
  by (induction e arbitrary: i) (auto split: if_splits)

lemma key_var_name: "key e = var_name e"
  by (cases "Index_eq e") (simp_all add: key_def var_name_def Index_eq_None Index_eq_Some)

lemma collect_newVars_dom: "dom (collect_newVars es m) = dom m \<union> key ` set es"
  by (induction es arbitrary: m) auto

lemma append_oldEnv_filter:
  "append_oldEnv es nv result = result @ filter (\<lambda>e. nv (key e) = None) es"
  by (induction es arbitrary: result) auto

lemma MergeEnv_filter:
  "MergeEnv oldEnv newEnv = newEnv @ filter (\<lambda>e. key e \<notin> key ` set newEnv) oldEnv"
proof -
  have "collect_newVars newEnv Map.empty (key e) = None \<longleftrightarrow> key e \<notin> key ` set newEnv" for e
    using collect_newVars_dom [of newEnv Map.empty] domIff [of "key e" "collect_newVars newEnv Map.empty"]
    by (cases "collect_newVars newEnv Map.empty (key e)") auto
  then show ?thesis
    by (simp add: MergeEnv_def append_oldEnv_filter)
qed

text \<open>
  Claim C6. MergeEnv old new is new, verbatim and in order, followed by the entries of
  old, in order, whose variable name (the prefix before the first \<open>=\<close>, or the whole entry)
  is not a variable name of new. So the names of the result are the union of the names of
  old and new, and for a name that new defines the entries of the result with that name
  are exactly those of new: new's value survives.
\<close>

theorem MergeEnv_spec:
  "MergeEnv oldEnv newEnv =
     newEnv @ filter (\<lambda>e. var_name e \<notin> var_name ` set newEnv) oldEnv
   \<and> var_name ` set (MergeEnv oldEnv newEnv) = var_name ` set oldEnv \<union> var_name ` set newEnv
   \<and> (\<forall>n \<in> var_name ` set newEnv.
         filter (\<lambda>e. var_name e = n) (MergeEnv oldEnv newEnv) = filter (\<lambda>e. var_name e = n) newEnv)"
proof -
  have eq: "MergeEnv oldEnv newEnv =
      newEnv @ filter (\<lambda>e. var_name e \<notin> var_name ` set newEnv) oldEnv"
    using MergeEnv_filter [of oldEnv newEnv] by (simp add: key_var_name)
  have names: "var_name ` set (MergeEnv oldEnv newEnv) = var_name ` set oldEnv \<union> var_name ` set newEnv"
    unfolding eq by auto
  have surv: "filter (\<lambda>e. var_name e = n) (MergeEnv oldEnv newEnv) = filter (\<lambda>e. var_name e = n) newEnv"
    if "n \<in> var_name ` set newEnv" for n
  proof -
    have "filter (\<lambda>e. var_name e = n) (filter (\<lambda>e. var_name e \<notin> var_name ` set newEnv) oldEnv) = []"
      using that by (auto simp: filter_empty_conv)
    then show ?thesis unfolding eq by simp
  qed
  from eq names surv show ?thesis by blast
qed

theorem MergeEnv_spec_witness:
  "MergeEnv [''PATH=/bin'', ''HOME=/root'', ''TERM''] [''HOME=/tmp'', ''GIT_ASKPASS=true'']
     = [''HOME=/tmp'', ''GIT_ASKPASS=true'', ''PATH=/bin'', ''TERM'']
   \<and> ''HOME'' \<in> var_name ` set [''HOME=/tmp'', ''GIT_ASKPASS=true'']
   \<and> filter (\<lambda>e. var_name e = ''HOME'')
        (MergeEnv [''PATH=/bin'', ''HOME=/root'', ''TERM''] [''HOME=/tmp'', ''GIT_ASKPASS=true''])
      = [''HOME=/tmp'']"
  using MergeEnv_spec [of "[''PATH=/bin'', ''HOME=/root'', ''TERM'']" "[''HOME=/tmp'', ''GIT_ASKPASS=true'']"]
  by (simp add: var_name_def)

section \<open>The cgroup parent (extractParentFromCgroupMap)\<close>

text \<open>
  The two errors of extractParentFromCgroupMap, built with \<open>fmt.Errorf\<close> in the source:
  no \<open>memory\<close> key in the map, and a memory value with fewer than two segments.
\<close>

datatype cgroup_error =
    MemoryCgroupNotFound
  | UnprocessableMemoryValue string

text \<open>
  The map from controller to path is a Go \<open>map[string]string\<close>. \<open>parts[len(parts)-2]\<close>
  is read only after the check \<open>len(parts) < 2\<close>, so the index is in range.
\<close>

definition extractParentFromCgroupMap :: "(string \<rightharpoonup> string) \<Rightarrow> cgroup_error + string" where
  "extractParentFromCgroupMap cgMap =
     (case cgMap ''memory'' of
        None \<Rightarrow> Inl MemoryCgroupNotFound
      | Some memory \<Rightarrow>
          (let parts = Split memory CHR ''/'' in
           if length parts < 2 then Inl (UnprocessableMemoryValue memory)
           else if HasSuffix memory ''.scope''
             then Inr (parts ! (length parts - 2))
             else Inr (Join (take (length parts - 1) parts) ''/'')))"

text \<open>
  Claim C7. Without a \<open>memory\<close> key extractParentFromCgroupMap returns an error. Let the
  memory path consist of the segments \<open>parts\<close>: it is their join with \<open>/\<close>, and no
  segment contains \<open>/\<close>. With fewer than two segments the result is an error; otherwise,
  for a path ending in \<open>.scope\<close> the parent is the second-to-last segment, and for any
  other path it is all segments except the last, joined by \<open>/\<close>.
\<close>

theorem extractParentFromCgroupMap_spec:
  "(cgMap ''memory'' = None \<longrightarrow> isl (extractParentFromCgroupMap cgMap))
   \<and> (\<forall>parts. parts \<noteq> [] \<and> (\<forall>p \<in> set parts. CHR ''/'' \<notin> set p)
          \<and> cgMap ''memory'' = Some (Join parts ''/'') \<longrightarrow>
        (length parts < 2 \<longrightarrow> isl (extractParentFromCgroupMap cgMap))
      \<and> (2 \<le> length parts \<and> HasSuffix (Join parts ''/'') ''.scope'' \<longrightarrow>
           extractParentFromCgroupMap cgMap = Inr (parts ! (length parts - 2)))
      \<and> (2 \<le> length parts \<and> \<not> HasSuffix (Join parts ''/'') ''.scope'' \<longrightarrow>
           extractParentFromCgroupMap cgMap = Inr (Join (butlast parts) ''/'')))"
proof (intro conjI allI impI)
  assume "cgMap ''memory'' = None"
  then show "isl (extractParentFromCgroupMap cgMap)"
    by (simp add: extractParentFromCgroupMap_def)
next
  fix parts :: "string list"
  assume a: "parts \<noteq> [] \<and> (\<forall>p \<in> set parts. CHR ''/'' \<notin> set p)
          \<and> cgMap ''memory'' = Some (Join parts ''/'')"
  then have sp: "Split (Join parts ''/'') CHR ''/'' = parts"
    using Split_Join [of parts "CHR ''/''"] by simp
  {
    assume "length parts < 2"
    with a sp show "isl (extractParentFromCgroupMap cgMap)"
      by (simp add: extractParentFromCgroupMap_def)
  next
    assume "2 \<le> length parts \<and> HasSuffix (Join parts ''/'') ''.scope''"
    with a sp show "extractParentFromCgroupMap cgMap = Inr (parts ! (length parts - 2))"
      by (simp add: extractParentFromCgroupMap_def)
  next
    assume "2 \<le> length parts \<and> \<not> HasSuffix (Join parts ''/'') ''.scope''"
    with a sp show "extractParentFromCgroupMap cgMap = Inr (Join (butlast parts) ''/'')"
      by (simp add: extractParentFromCgroupMap_def butlast_conv_take)
  }
qed

theorem extractParentFromCgroupMap_spec_witness:
  "isl (extractParentFromCgroupMap [''cpu'' \<mapsto> ''/a/b''])
   \<and> isl (extractParentFromCgroupMap [''memory'' \<mapsto> ''abc''])
   \<and> extractParentFromCgroupMap [''memory'' \<mapsto> ''/system.slice/docker-abc.scope'']
       = Inr ''system.slice''
   \<and> extractParentFromCgroupMap [''memory'' \<mapsto> ''/kubepods/burstable/pod1/abc'']
       = Inr ''/kubepods/burstable/pod1''"
  using extractParentFromCgroupMap_spec [of "[''cpu'' \<mapsto> ''/a/b'']"]
    extractParentFromCgroupMap_spec [of "[''memory'' \<mapsto> ''abc'']",
      THEN conjunct2, rule_format, of "[''abc'']"]
    extractParentFromCgroupMap_spec [of "[''memory'' \<mapsto> ''/system.slice/docker-abc.scope'']",
      THEN conjunct2, rule_format, of "['''', ''system.slice'', ''docker-abc.scope'']"]
    extractParentFromCgroupMap_spec [of "[''memory'' \<mapsto> ''/kubepods/burstable/pod1/abc'']",
      THEN conjunct2, rule_format, of "['''', ''kubepods'', ''burstable'', ''pod1'', ''abc'']"]
  by (simp add: HasSuffix_def)

end
